theory Spec2Isabelle
  imports Main "HOL-Library.Word" "HOL-Library.Sublist"
begin

unbundle bit_operations_syntax

section \<open>The environment of sync\_to\_ssds.cpp\<close>

text \<open>
  The program talks to the operating system through \<^verbatim>\<open>setmntent\<close>/\<^verbatim>\<open>getmntent\<close>,
  \<^verbatim>\<open>system\<close>, the inotify calls, \<^verbatim>\<open>read\<close> and the two standard streams. Every such
  interaction is recorded, in program order, as one \<open>event\<close> of the run. A \<open>Stdout\<close> or
  \<open>Stderr\<close> event is one line of text (the text before \<^verbatim>\<open>std::endl\<close> or \<^verbatim>\<open>\n\<close>).
\<close>

type_synonym byte = "8 word"

datatype event =
    Stdout string
  | Stderr string
  | System string
  | Inotify_init
  | Inotify_add_watch int string "32 word"
  | Read_call int
  | Inotify_rm_watch int int
  | Close_call int

text \<open>\<^verbatim>\<open>struct mntent\<close> of \<^verbatim>\<open><mntent.h>\<close>, as \<^verbatim>\<open>getmntent\<close> returns it.\<close>

record mntent =
  mnt_fsname :: string
  mnt_dir :: string
  mnt_type :: string
  mnt_opts :: string
  mnt_freq :: int
  mnt_passno :: int

text \<open>
  What one \<^verbatim>\<open>read(fd, buffer, BUF_LEN)\<close> delivers: a negative return value, or the bytes
  written to the front of the buffer.
\<close>

datatype read_result = Read_error | Read_data "byte list"

text \<open>
  The answers of the operating system. \<open>mtab_at env k\<close> is the mount table seen by the
  \<open>k\<close>-th call of \<^verbatim>\<open>setmntent\<close> (\<open>None\<close>: it returned \<^verbatim>\<open>nullptr\<close>; otherwise the entries
  that \<^verbatim>\<open>getmntent\<close> yields until it returns \<^verbatim>\<open>nullptr\<close>), so the table may differ from
  one query to the next. \<open>system_at env k cmd\<close> is the return value of the \<open>k\<close>-th call of
  \<^verbatim>\<open>system\<close>. \<open>reads env\<close> are the results of the successive \<^verbatim>\<open>read\<close> calls; once they
  are used up the next \<^verbatim>\<open>read\<close> blocks for ever. \<open>stack_buffer env\<close> is the content of
  the uninitialised array \<^verbatim>\<open>buffer\<close>.
\<close>

record env =
  mtab_at :: "nat \<Rightarrow> mntent list option"
  system_at :: "nat \<Rightarrow> string \<Rightarrow> int"
  inotify_init_result :: int
  inotify_add_watch_result :: int
  reads :: "read_result list"
  stack_buffer :: "nat \<Rightarrow> byte"

text \<open>The state of a run: how many mount-table queries and \<^verbatim>\<open>system\<close> calls were made,
  and the events so far.\<close>

record state =
  n_mtab :: nat
  n_sys :: nat
  trace :: "event list"

definition emit :: "event \<Rightarrow> state \<Rightarrow> state" where
  "emit e s = s\<lparr>trace := trace s @ [e]\<rparr>"

section \<open>MountRegistry: is\_drive\_mounted\<close>

text \<open>
  The \<^verbatim>\<open>while ((entry = getmntent(mtab)) != nullptr)\<close> loop of lines 24 to 30: every
  entry read is echoed on standard output, and the loop breaks at the first entry whose
  \<^verbatim>\<open>mnt_dir\<close> equals \<^verbatim>\<open>drive\<close>.
\<close>

fun scan_mtab :: "string \<Rightarrow> mntent list \<Rightarrow> state \<Rightarrow> bool \<times> state" where
  "scan_mtab drive [] s = (False, s)"
| "scan_mtab drive (entry # rest) s =
     (let s' = emit (Stdout (mnt_dir entry)) s
      in if mnt_dir entry = drive then (True, s') else scan_mtab drive rest s')"

definition is_drive_mounted :: "env \<Rightarrow> string \<Rightarrow> state \<Rightarrow> bool \<times> state" where
  "is_drive_mounted env drive s =
     (let s0 = s\<lparr>n_mtab := n_mtab s + 1\<rparr>
      in case mtab_at env (n_mtab s) of
           None \<Rightarrow> (False, emit (Stderr ''Error opening /etc/mtab'') s0)
         | Some entries \<Rightarrow>
             (let (mounted, s1) = scan_mtab drive entries s0
              in (mounted, emit (Stdout (if mounted then ''1'' else ''0'')) s1)))"

section \<open>Mirror: sync\_directory\<close>

definition sync_command :: "string \<Rightarrow> string \<Rightarrow> string" where
  "sync_command src dest = ''rsync -avz --delete '' @ src @ '' '' @ dest"

definition sync_directory :: "env \<Rightarrow> string \<Rightarrow> string \<Rightarrow> state \<Rightarrow> state" where
  "sync_directory env src dest s =
     (let command = sync_command src dest;
          result = system_at env (n_sys s) command;
          s1 = emit (System command) (s\<lparr>n_sys := n_sys s + 1\<rparr>)
      in if result \<noteq> 0
         then emit (Stderr (''Error syncing '' @ src @ '' to '' @ dest)) s1
         else emit (Stdout (''Successfully synced '' @ src @ '' to '' @ dest)) s1)"

section \<open>SyncDispatcher: sync\_to\_all\_drives\<close>

fun sync_to_all_drives :: "env \<Rightarrow> string \<Rightarrow> string list \<Rightarrow> state \<Rightarrow> state" where
  "sync_to_all_drives env src [] s = s"
| "sync_to_all_drives env src (drive # drives) s =
     (let (mounted, s1) = is_drive_mounted env drive s
      in sync_to_all_drives env src drives
           (if mounted then sync_directory env src drive s1 else s1))"

section \<open>ChangeWatcher and Controller: main\<close>

text \<open>
  \<^verbatim>\<open>struct inotify_event\<close> of \<^verbatim>\<open><sys/inotify.h>\<close> on Linux: four 32-bit fields
  (\<^verbatim>\<open>int wd; uint32_t mask; uint32_t cookie; uint32_t len;\<close>) followed by \<^verbatim>\<open>len\<close> bytes
  of name, so \<^verbatim>\<open>sizeof(struct inotify_event)\<close> is 16. The header file is not part of the
  repository; the constants below are the values of the Linux header.
\<close>

record inotify_event =
  ev_wd :: "32 word"
  ev_mask :: "32 word"
  ev_cookie :: "32 word"
  ev_len :: "32 word"

definition IN_MODIFY :: "32 word" where "IN_MODIFY = 0x00000002"
definition IN_MOVED_FROM :: "32 word" where "IN_MOVED_FROM = 0x00000040"
definition IN_MOVED_TO :: "32 word" where "IN_MOVED_TO = 0x00000080"
definition IN_CREATE :: "32 word" where "IN_CREATE = 0x00000100"
definition IN_DELETE :: "32 word" where "IN_DELETE = 0x00000200"

definition WATCH_MASK :: "32 word" where
  "WATCH_MASK = IN_CREATE OR IN_DELETE OR IN_MODIFY OR IN_MOVED_FROM OR IN_MOVED_TO"

definition EVENT_SIZE :: int where
  "EVENT_SIZE = 16"

definition BUF_LEN :: int where
  "BUF_LEN = 1024 * (EVENT_SIZE + 16)"

text \<open>
  The array \<^verbatim>\<open>char buffer[BUF_LEN]\<close> is a function from the index to the byte stored
  there. The cast \<^verbatim>\<open>(struct inotify_event*)&buffer[i]\<close> reads the four header fields at
  byte offsets 0, 4, 8 and 12 from \<open>i\<close>, least significant byte first.
\<close>

definition le32 :: "byte \<Rightarrow> byte \<Rightarrow> byte \<Rightarrow> byte \<Rightarrow> 32 word" where
  "le32 b0 b1 b2 b3 =
     ucast b0 OR push_bit 8 (ucast b1) OR push_bit 16 (ucast b2) OR push_bit 24 (ucast b3)"

definition u32_at :: "(nat \<Rightarrow> byte) \<Rightarrow> nat \<Rightarrow> 32 word" where
  "u32_at buffer i = le32 (buffer i) (buffer (i + 1)) (buffer (i + 2)) (buffer (i + 3))"

definition event_at :: "(nat \<Rightarrow> byte) \<Rightarrow> nat \<Rightarrow> inotify_event" where
  "event_at buffer i =
     \<lparr>ev_wd = u32_at buffer i, ev_mask = u32_at buffer (i + 4),
      ev_cookie = u32_at buffer (i + 8), ev_len = u32_at buffer (i + 12)\<rparr>"

text \<open>
  \<^verbatim>\<open>i += EVENT_SIZE + event->len\<close> with \<^verbatim>\<open>int i\<close> and \<^verbatim>\<open>uint32_t len\<close>: the sum is
  computed in \<^verbatim>\<open>unsigned int\<close>, modulo \<open>2 ^ 32\<close>, and converted back to \<^verbatim>\<open>int\<close>.
\<close>

definition advance :: "int \<Rightarrow> 32 word \<Rightarrow> int" where
  "advance i l = sint ((word_of_int i :: 32 word) + (word_of_int EVENT_SIZE + l))"

text \<open>
  The inner loop of lines 90 to 101. An event header that does not lie inside the array
  is an out-of-bounds read, which the model reports as a fault. The loop need not end
  on arbitrary buffer contents (\<^verbatim>\<open>len = 0xFFFFFFF0\<close> leaves \<open>i\<close> where it is), so it is a
  partial function: \<open>None\<close> stands for a loop that runs for ever.
\<close>

datatype fault = Out_of_bounds

partial_function (option) scan_events ::
  "env \<Rightarrow> string \<Rightarrow> string list \<Rightarrow> (nat \<Rightarrow> byte) \<Rightarrow> int \<Rightarrow> int \<Rightarrow> state \<Rightarrow> (fault + state) option"
where
  "scan_events env src_dir dest_drives buffer len i s =
     (if i < len then
        (if 0 \<le> i \<and> i + EVENT_SIZE \<le> BUF_LEN then
           (let event = event_at buffer (nat i)
            in if ev_len event \<noteq> 0 \<and> ev_mask event AND WATCH_MASK \<noteq> 0
               then Some (Inr (sync_to_all_drives env src_dir dest_drives
                                 (emit (Stdout (''Change detected in '' @ src_dir)) s)))
               else scan_events env src_dir dest_drives buffer len (advance i (ev_len event)) s)
         else Some (Inl Out_of_bounds))
      else Some (Inr s))"

declare scan_events.simps [code]

text \<open>
  \<^verbatim>\<open>read(fd, buffer, BUF_LEN)\<close> overwrites the front of the buffer with at most
  \<^verbatim>\<open>BUF_LEN\<close> bytes and returns their number; the rest of the buffer keeps its content.
\<close>

definition read_length :: "byte list \<Rightarrow> int" where
  "read_length bytes = min (int (length bytes)) BUF_LEN"

definition read_into :: "byte list \<Rightarrow> (nat \<Rightarrow> byte) \<Rightarrow> (nat \<Rightarrow> byte)" where
  "read_into bytes buffer = (\<lambda>j. if int j < read_length bytes then bytes ! j else buffer j)"

text \<open>
  The \<^verbatim>\<open>while (true)\<close> loop of lines 83 to 102, one iteration per result of \<^verbatim>\<open>read\<close>. It
  is left by the \<^verbatim>\<open>break\<close> of line 87 only; when no further result arrives the process
  stays blocked in \<^verbatim>\<open>read\<close>.
\<close>

datatype loop_end = Loop_break | Read_blocks | Loop_fault fault

fun watch_loop ::
  "env \<Rightarrow> string \<Rightarrow> string list \<Rightarrow> int \<Rightarrow> (nat \<Rightarrow> byte) \<Rightarrow> read_result list \<Rightarrow> state
     \<Rightarrow> (loop_end \<times> state) option"
where
  "watch_loop env src_dir dest_drives fd buffer [] s = Some (Read_blocks, emit (Read_call fd) s)"
| "watch_loop env src_dir dest_drives fd buffer (r # rs) s =
     (let s0 = emit (Read_call fd) s
      in case r of
           Read_error \<Rightarrow> Some (Loop_break, emit (Stderr ''Error reading inotify events'') s0)
         | Read_data bytes \<Rightarrow>
             (let buffer' = read_into bytes buffer
              in case scan_events env src_dir dest_drives buffer' (read_length bytes) 0 s0 of
                   None \<Rightarrow> None
                 | Some (Inl f) \<Rightarrow> Some (Loop_fault f, s0)
                 | Some (Inr s1) \<Rightarrow> watch_loop env src_dir dest_drives fd buffer' rs s1))"

text \<open>
  \<^verbatim>\<open>main\<close>. The argument vector is the program name \<open>prog\<close> (\<^verbatim>\<open>argv[0]\<close>) followed by
  \<open>args\<close>, so \<^verbatim>\<open>argc\<close> is \<open>1 + length args\<close>. The result is how the process ends (its
  exit code, blocked in \<^verbatim>\<open>read\<close> for ever, or a fault) and the final state; \<open>None\<close> is a
  run whose inner loop never ends.
\<close>

datatype status = Exit int | Blocked | Crashed fault

definition initial_state :: state where
  "initial_state = \<lparr>n_mtab = 0, n_sys = 0, trace = []\<rparr>"

definition usage_line :: "string \<Rightarrow> string" where
  "usage_line prog =
     ''Usage: '' @ prog @ '' <source_directory> <destination_drive1> [destination_drive2] ...''"

definition main :: "env \<Rightarrow> string \<Rightarrow> string list \<Rightarrow> (status \<times> state) option" where
  "main env prog args =
     (let argc = 1 + int (length args)
      in if argc < 3 then Some (Exit 1, emit (Stderr (usage_line prog)) initial_state)
         else
           (let src_dir = hd args;
                dest_drives = tl args;
                fd = inotify_init_result env;
                s1 = emit Inotify_init initial_state
            in if fd < 0 then Some (Exit 1, emit (Stderr ''Error initializing inotify'') s1)
               else
                 (let wd = inotify_add_watch_result env;
                      s2 = emit (Inotify_add_watch fd src_dir WATCH_MASK) s1
                  in if wd < 0
                     then Some (Exit 1,
                            emit (Close_call fd) (emit (Stderr (''Error adding watch to '' @ src_dir)) s2))
                     else
                       (let s3 = emit (Stdout (''Watching '' @ src_dir @ '' for changes...'')) s2;
                            s4 = sync_to_all_drives env src_dir dest_drives s3
                        in case watch_loop env src_dir dest_drives fd (stack_buffer env) (reads env) s4 of
                             None \<Rightarrow> None
                           | Some (Loop_break, s5) \<Rightarrow>
                               Some (Exit 0, emit (Close_call fd) (emit (Inotify_rm_watch fd wd) s5))
                           | Some (Read_blocks, s5) \<Rightarrow> Some (Blocked, s5)
                           | Some (Loop_fault f, s5) \<Rightarrow> Some (Crashed f, s5)))))"

section \<open>Vocabulary of the properties\<close>

text \<open>The commands handed to \<^verbatim>\<open>system\<close> in a run, in order.\<close>

fun systems :: "event list \<Rightarrow> string list" where
  "systems [] = []"
| "systems (System c # es) = c # systems es"
| "systems (e # es) = systems es"

text \<open>What \<open>is_drive_mounted\<close> answers for \<open>drive\<close> at mount-table query number \<open>k\<close>.\<close>

definition reported_mounted :: "env \<Rightarrow> nat \<Rightarrow> string \<Rightarrow> bool" where
  "reported_mounted env k drive =
     fst (is_drive_mounted env drive \<lparr>n_mtab = k, n_sys = 0, trace = []\<rparr>)"

text \<open>
  The destinations of a list that are reported mounted when their turn comes, the first
  destination being asked at query number \<open>k\<close>, the next at \<open>k + 1\<close>, and so on.
\<close>

fun mounted_at_query :: "env \<Rightarrow> nat \<Rightarrow> string list \<Rightarrow> string list" where
  "mounted_at_query env k [] = []"
| "mounted_at_query env k (d # ds) =
     (if reported_mounted env k d then d # mounted_at_query env (k + 1) ds
      else mounted_at_query env (k + 1) ds)"

text \<open>
  A notification batch as the kernel delivers it: a sequence of events, each a header
  followed by its name bytes, laid out one after the other. \<open>batch_bytes\<close> is that
  layout; an event is well formed when its \<^verbatim>\<open>len\<close> field is the number of name bytes.
\<close>

definition enc32 :: "32 word \<Rightarrow> byte list" where
  "enc32 w = [ucast w, ucast (drop_bit 8 w), ucast (drop_bit 16 w), ucast (drop_bit 24 w)]"

fun event_bytes :: "inotify_event \<times> byte list \<Rightarrow> byte list" where
  "event_bytes (h, name) =
     enc32 (ev_wd h) @ enc32 (ev_mask h) @ enc32 (ev_cookie h) @ enc32 (ev_len h) @ name"

definition batch_bytes :: "(inotify_event \<times> byte list) list \<Rightarrow> byte list" where
  "batch_bytes evs = concat (map event_bytes evs)"

fun well_formed :: "inotify_event \<times> byte list \<Rightarrow> bool" where
  "well_formed (h, name) = (length name = unat (ev_len h))"

text \<open>
  An event of a batch triggers a dispatch when its name is not empty and its mask has
  one of the watched event bits.
\<close>

fun triggers :: "inotify_event \<times> byte list \<Rightarrow> bool" where
  "triggers (h, name) = (name \<noteq> [] \<and> ev_mask h AND WATCH_MASK \<noteq> 0)"

text \<open>
  The entries that the loop of \<open>is_drive_mounted\<close> reads before it stops: all of them,
  or those up to and including the first one whose directory is \<open>drive\<close>.
\<close>

fun scanned :: "string \<Rightarrow> mntent list \<Rightarrow> mntent list" where
  "scanned drive [] = []"
| "scanned drive (entry # rest) =
     (if mnt_dir entry = drive then [entry] else entry # scanned drive rest)"

text \<open>
  The lines of one mount-table query at query number \<open>k\<close>: the complaint that the table
  cannot be opened, or the echo of the entries read followed by the flag \<^verbatim>\<open>1\<close> or \<^verbatim>\<open>0\<close>.
\<close>

definition mount_query_lines :: "env \<Rightarrow> nat \<Rightarrow> string \<Rightarrow> event list" where
  "mount_query_lines env k drive =
     (case mtab_at env k of
        None \<Rightarrow> [Stderr ''Error opening /etc/mtab'']
      | Some es \<Rightarrow> map (\<lambda>e. Stdout (mnt_dir e)) (scanned drive es)
                   @ [Stdout (if drive \<in> set (map mnt_dir es) then ''1'' else ''0'')])"

text \<open>The line that reports a mirror run, chosen by the return value of \<^verbatim>\<open>system\<close> alone.\<close>

definition outcome_line :: "int \<Rightarrow> string \<Rightarrow> string \<Rightarrow> event" where
  "outcome_line result src dest =
     (if result \<noteq> 0 then Stderr (''Error syncing '' @ src @ '' to '' @ dest)
      else Stdout (''Successfully synced '' @ src @ '' to '' @ dest))"

text \<open>
  The events of a whole pass, destination by destination: the lines of the mount query,
  then, for a destination reported mounted, the \<^verbatim>\<open>system\<close> call and its one outcome
  line, and nothing more for a destination that is not. \<open>k\<close> and \<open>n\<close> number the next
  mount-table query and the next \<^verbatim>\<open>system\<close> call.
\<close>

fun pass_trace :: "env \<Rightarrow> string \<Rightarrow> nat \<Rightarrow> nat \<Rightarrow> string list \<Rightarrow> event list" where
  "pass_trace env src k n [] = []"
| "pass_trace env src k n (d # ds) =
     mount_query_lines env k d @
     (if reported_mounted env k d
      then [System (sync_command src d), outcome_line (system_at env n (sync_command src d)) src d]
           @ pass_trace env src (k + 1) (n + 1) ds
      else pass_trace env src (k + 1) n ds)"

fun is_read_call :: "event \<Rightarrow> bool" where
  "is_read_call (Read_call fd) = True"
| "is_read_call e = False"

text \<open>The state in which line 80, the initial sync, is reached.\<close>

definition startup_state :: "env \<Rightarrow> string \<Rightarrow> state" where
  "startup_state env src_dir =
     \<lparr>n_mtab = 0, n_sys = 0,
      trace = [Inotify_init,
               Inotify_add_watch (inotify_init_result env) src_dir WATCH_MASK,
               Stdout (''Watching '' @ src_dir @ '' for changes...'')]\<rparr>"

text \<open>
  \<^verbatim>\<open>system(command)\<close> runs \<^verbatim>\<open>/bin/sh -c command\<close>, so the arguments that the mirror
  tool receives are decided by the shell. The shell is not part of the repository, and
  the theory describes it only where its behaviour is beyond doubt: on a command line
  made of plain characters (letters, digits and \<^verbatim>\<open>/ . _ - + , : @ %\<close>) and spaces, whose
  first word is not a reserved word. Such a line is one simple command: the shell cuts
  it into words at the spaces, expands nothing, and runs the first word with all the
  words as its argument vector. On every other command line (a tab, a newline, a quote,
  \<^verbatim>\<open>;\<close>, \<^verbatim>\<open>&\<close>, \<^verbatim>\<open>|\<close>, \<^verbatim>\<open>$\<close>, \<^verbatim>\<open>*\<close>, \<^verbatim>\<open>#\<close>, \<^verbatim>\<open>~\<close> and so on) \<open>sh_words\<close> is \<open>None\<close>:
  the theory does not say what the shell does there.
\<close>

definition plain_char :: "char \<Rightarrow> bool" where
  "plain_char c =
     (c \<in> set (''abcdefghijklmnopqrstuvwxyz'' @ ''ABCDEFGHIJKLMNOPQRSTUVWXYZ''
                @ ''0123456789'' @ ''/._-+,:@%''))"

definition sh_reserved :: "string list" where
  "sh_reserved =
     [''case'', ''do'', ''done'', ''elif'', ''else'', ''esac'', ''fi'', ''for'', ''if'', ''in'',
      ''then'', ''until'', ''while'', ''function'', ''select'', ''time'', ''coproc'']"

text \<open>
  The maximal runs of characters other than the space. \<open>words_from w cs\<close> has read the
  word \<open>w\<close> so far and goes on with \<open>cs\<close>.
\<close>

fun words_from :: "string \<Rightarrow> string \<Rightarrow> string list" where
  "words_from w [] = (if w = [] then [] else [w])"
| "words_from w (c # cs) =
     (if c = CHR '' '' then (if w = [] then words_from [] cs else w # words_from [] cs)
      else words_from (w @ [c]) cs)"

definition sh_words :: "string \<Rightarrow> string list option" where
  "sh_words cmd =
     (if list_all (\<lambda>c. plain_char c \<or> c = CHR '' '') cmd
      then (case words_from [] cmd of
              [] \<Rightarrow> None
            | w # ws \<Rightarrow> if w \<in> set sh_reserved then None else Some (w # ws))
      else None)"

text \<open>
  What successive \<^verbatim>\<open>read\<close> calls deliver, event by event rather than byte by byte:
  \<open>None\<close> is a failed \<^verbatim>\<open>read\<close>, \<open>Some evs\<close> a batch of events. A batch can be
  delivered when its events are well formed and its bytes fit the buffer.
\<close>

fun delivery :: "(inotify_event \<times> byte list) list option \<Rightarrow> read_result" where
  "delivery None = Read_error"
| "delivery (Some evs) = Read_data (batch_bytes evs)"

fun deliverable :: "(inotify_event \<times> byte list) list option \<Rightarrow> bool" where
  "deliverable None = True"
| "deliverable (Some evs) =
     (list_all well_formed evs \<and> int (length (batch_bytes evs)) \<le> BUF_LEN)"

section \<open>Example environments\<close>

definition mount :: "string \<Rightarrow> mntent" where
  "mount d = \<lparr>mnt_fsname = ''/dev/sda1'', mnt_dir = d, mnt_type = ''ext4'', mnt_opts = ''rw'',
              mnt_freq = 0, mnt_passno = 0\<rparr>"

text \<open>A machine where \<^verbatim>\<open>rsync\<close> succeeds and inotify hands out descriptor 3 and watch 1.\<close>

definition example_env :: "(nat \<Rightarrow> mntent list option) \<Rightarrow> read_result list \<Rightarrow> env" where
  "example_env tab rs =
     \<lparr>mtab_at = tab, system_at = (\<lambda>k c. 0),
      inotify_init_result = 3, inotify_add_watch_result = 1, reads = rs,
      stack_buffer = (\<lambda>j. 0)\<rparr>"

text \<open>The mount table with the root file system and \<^verbatim>\<open>/mnt/ssd1\<close>, at every query.\<close>

definition ssd1_mounted :: "nat \<Rightarrow> mntent list option" where
  "ssd1_mounted k = Some [mount ''/'', mount ''/mnt/ssd1'']"

definition mtab_unavailable :: "nat \<Rightarrow> mntent list option" where
  "mtab_unavailable k = None"

text \<open>
  A file \<^verbatim>\<open>a\<close> is created and deleted at once: two events in one batch, each with the
  name padded to 16 bytes.
\<close>

definition name_a :: "byte list" where
  "name_a = [0x61, 0, 0, 0, 0, 0, 0, 0, 0, 0, 0, 0, 0, 0, 0, 0]"

definition create_delete_batch :: "(inotify_event \<times> byte list) list" where
  "create_delete_batch =
     [(\<lparr>ev_wd = 1, ev_mask = IN_CREATE, ev_cookie = 0, ev_len = 16\<rparr>, name_a),
      (\<lparr>ev_wd = 1, ev_mask = IN_DELETE, ev_cookie = 0, ev_len = 16\<rparr>, name_a)]"

text \<open>Two events without a name: the watch is removed (\<^verbatim>\<open>IN_IGNORED\<close>), and an event
  with a watched bit that concerns the directory itself.\<close>

definition nameless_batch :: "(inotify_event \<times> byte list) list" where
  "nameless_batch =
     [(\<lparr>ev_wd = 1, ev_mask = 0x8000, ev_cookie = 0, ev_len = 0\<rparr>, []),
      (\<lparr>ev_wd = 1, ev_mask = IN_MODIFY, ev_cookie = 0, ev_len = 0\<rparr>, [])]"

section \<open>What one call does to the state\<close>

lemma emit_simps [simp]:
  "trace (emit e s) = trace s @ [e]" "n_mtab (emit e s) = n_mtab s" "n_sys (emit e s) = n_sys s"
  by (simp_all add: emit_def)

lemma systems_append [simp]: "systems (xs @ ys) = systems xs @ systems ys"
  by (induction xs rule: systems.induct) simp_all

lemma systems_stdout [simp]: "systems (map (\<lambda>e. Stdout (f e)) xs) = []"
  by (induction xs) simp_all

lemma scan_mtab_eq:
  "scan_mtab drive es s =
     (drive \<in> set (map mnt_dir es),
      s\<lparr>trace := trace s @ map (\<lambda>e. Stdout (mnt_dir e)) (scanned drive es)\<rparr>)"
proof (induction es arbitrary: s)
  case Nil
  show ?case by simp
next
  case (Cons e es)
  show ?case
  proof (cases "mnt_dir e = drive")
    case True
    then show ?thesis by (simp add: emit_def)
  next
    case False
    then show ?thesis by (simp add: Cons.IH emit_def)
  qed
qed

lemma reported_mounted_iff:
  "reported_mounted env k drive =
     (case mtab_at env k of None \<Rightarrow> False | Some es \<Rightarrow> drive \<in> set (map mnt_dir es))"
  by (cases "mtab_at env k")
     (simp_all add: reported_mounted_def is_drive_mounted_def scan_mtab_eq)

lemma is_drive_mounted_eq:
  "is_drive_mounted env drive s =
     (reported_mounted env (n_mtab s) drive,
      s\<lparr>n_mtab := n_mtab s + 1, trace := trace s @ mount_query_lines env (n_mtab s) drive\<rparr>)"
  by (cases "mtab_at env (n_mtab s)")
     (simp_all add: reported_mounted_iff is_drive_mounted_def scan_mtab_eq
        mount_query_lines_def emit_def)

lemma systems_query_lines [simp]: "systems (mount_query_lines env k d) = []"
  by (cases "mtab_at env k") (simp_all add: mount_query_lines_def)

lemma sync_directory_eq:
  "sync_directory env src dest s =
     s\<lparr>n_sys := n_sys s + 1,
       trace := trace s @ [System (sync_command src dest),
                           outcome_line (system_at env (n_sys s) (sync_command src dest)) src dest]\<rparr>"
  by (simp add: sync_directory_def outcome_line_def emit_def Let_def)

lemma sync_to_all_drives_step:
  "sync_to_all_drives env src (d # ds) s =
     sync_to_all_drives env src ds
       (if reported_mounted env (n_mtab s) d
        then s\<lparr>n_mtab := n_mtab s + 1, n_sys := n_sys s + 1,
               trace := trace s @ mount_query_lines env (n_mtab s) d
                  @ [System (sync_command src d),
                     outcome_line (system_at env (n_sys s) (sync_command src d)) src d]\<rparr>
        else s\<lparr>n_mtab := n_mtab s + 1, trace := trace s @ mount_query_lines env (n_mtab s) d\<rparr>)"
  by (simp add: is_drive_mounted_eq sync_directory_eq)

lemma pass_eq:
  "sync_to_all_drives env src ds s =
     s\<lparr>n_mtab := n_mtab s + length ds,
       n_sys := n_sys s + length (mounted_at_query env (n_mtab s) ds),
       trace := trace s @ pass_trace env src (n_mtab s) (n_sys s) ds\<rparr>"
proof (induction ds arbitrary: s)
  case Nil
  show ?case by simp
next
  case (Cons d ds)
  show ?case
    unfolding sync_to_all_drives_step
    by (cases "reported_mounted env (n_mtab s) d") (simp_all add: Cons.IH)
qed

lemma systems_pass_trace:
  "systems (pass_trace env src k n ds) = map (sync_command src) (mounted_at_query env k ds)"
  by (induction ds arbitrary: k n) (simp_all add: outcome_line_def)

lemma reported_mounted_system_at [simp]:
  "reported_mounted (env\<lparr>system_at := f\<rparr>) k d = reported_mounted env k d"
  by (simp add: reported_mounted_iff)

lemma mounted_at_query_system_at [simp]:
  "mounted_at_query (env\<lparr>system_at := f\<rparr>) k ds = mounted_at_query env k ds"
  by (induction ds arbitrary: k) simp_all

lemma no_read_query_lines: "list_all (\<lambda>e. \<not> is_read_call e) (mount_query_lines env k d)"
  by (cases "mtab_at env k") (simp_all add: mount_query_lines_def list_all_iff)

lemma no_read_pass_trace: "list_all (\<lambda>e. \<not> is_read_call e) (pass_trace env src k n ds)"
  by (induction ds arbitrary: k n) (simp_all add: no_read_query_lines outcome_line_def)

section \<open>The command line of the mirror tool\<close>

lemma plain_char_not_space: "plain_char c \<Longrightarrow> c \<noteq> CHR '' ''"
  by (auto simp: plain_char_def)

lemma plain_no_space: "list_all plain_char u \<Longrightarrow> CHR '' '' \<notin> set u"
  by (auto simp: list_all_iff dest: plain_char_not_space)

lemma words_from_word:
  "CHR '' '' \<notin> set u \<Longrightarrow> words_from w u = (if w @ u = [] then [] else [w @ u])"
  by (induction u arbitrary: w) auto

lemma words_from_word_space:
  "CHR '' '' \<notin> set u \<Longrightarrow>
     words_from w (u @ CHR '' '' # r) =
       (if w @ u = [] then words_from [] r else (w @ u) # words_from [] r)"
  by (induction u arbitrary: w) auto

lemma words_sync_command:
  assumes "src \<noteq> []" "dest \<noteq> []" "CHR '' '' \<notin> set src" "CHR '' '' \<notin> set dest"
  shows "words_from [] (sync_command src dest) = [''rsync'', ''-avz'', ''--delete'', src, dest]"
proof -
  have "words_from [] (sync_command src dest) =
          [''rsync'', ''-avz'', ''--delete''] @ words_from [] (src @ CHR '' '' # dest)"
    by (simp add: sync_command_def)
  also have "words_from [] (src @ CHR '' '' # dest) = src # words_from [] dest"
    using assms by (simp add: words_from_word_space)
  also have "words_from [] dest = [dest]"
    using assms by (simp add: words_from_word)
  finally show ?thesis by simp
qed

lemma plain_prefix:
  "list_all (\<lambda>c. plain_char c \<or> c = CHR '' '') ''rsync -avz --delete ''"
  by (simp add: plain_char_def)

lemma plain_sync_command:
  assumes "list_all plain_char src" "list_all plain_char dest"
  shows "list_all (\<lambda>c. plain_char c \<or> c = CHR '' '') (sync_command src dest)"
proof -
  have "list_all (\<lambda>c. plain_char c \<or> c = CHR '' '') src"
    and "list_all (\<lambda>c. plain_char c \<or> c = CHR '' '') dest"
    using assms by (auto simp: list_all_iff)
  then have "list_all (\<lambda>c. plain_char c \<or> c = CHR '' '')
               (''rsync -avz --delete '' @ src @ '' '' @ dest)"
    unfolding list_all_append using plain_prefix by simp
  then show ?thesis
    by (simp only: sync_command_def)
qed

lemma rsync_not_reserved: "''rsync'' \<notin> set sh_reserved"
  by (simp add: sh_reserved_def)

lemma sh_words_sync_command:
  assumes "src \<noteq> []" "dest \<noteq> []" "list_all plain_char src" "list_all plain_char dest"
  shows "sh_words (sync_command src dest) = Some [''rsync'', ''-avz'', ''--delete'', src, dest]"
proof -
  have w: "words_from [] (sync_command src dest) = [''rsync'', ''-avz'', ''--delete'', src, dest]"
    using assms by (intro words_sync_command plain_no_space)
  show ?thesis
    unfolding sh_words_def w
    using plain_sync_command[OF assms(3,4)] rsync_not_reserved by simp
qed

section \<open>Reading event headers from the buffer\<close>

lemma le32_enc32:
  "le32 (ucast w) (ucast (drop_bit 8 w)) (ucast (drop_bit 16 w)) (ucast (drop_bit 24 w)) = w"
  unfolding le32_def
proof (rule bit_word_eqI)
  fix n assume "n < LENGTH(32)"
  then have n: "n < 32" by simp
  consider "n < 8" | "8 \<le> n" "n < 16" | "16 \<le> n" "n < 24" | "24 \<le> n" by linarith
  then show "bit (ucast (ucast w :: byte) OR push_bit 8 (ucast (ucast (drop_bit 8 w) :: byte)) OR
        push_bit 16 (ucast (ucast (drop_bit 16 w) :: byte)) OR
        push_bit 24 (ucast (ucast (drop_bit 24 w) :: byte)) :: 32 word) n = bit w n"
    using n by cases (auto simp: bit_simps)
qed

lemma length_enc32 [simp]: "length (enc32 w) = 4"
  by (simp add: enc32_def)

lemma u32_at_enc32:
  assumes "\<forall>j<4. buffer (i + j) = enc32 w ! j"
  shows "u32_at buffer i = w"
proof -
  have "buffer i = enc32 w ! 0" using assms[rule_format, of 0] by simp
  moreover have "buffer (i + 1) = enc32 w ! 1" using assms[rule_format, of 1] by simp
  moreover have "buffer (i + 2) = enc32 w ! 2" using assms[rule_format, of 2] by simp
  moreover have "buffer (i + 3) = enc32 w ! 3" using assms[rule_format, of 3] by simp
  ultimately show ?thesis
    by (simp add: u32_at_def enc32_def le32_enc32)
qed

lemma event_at_event_bytes:
  assumes "\<forall>j<length (event_bytes (h, name) @ rest).
             buffer (off + j) = (event_bytes (h, name) @ rest) ! j"
  shows "event_at buffer off = h"
proof -
  let ?bs = "event_bytes (h, name) @ rest"
  have b: "buffer (off + j) = ?bs ! j" if "j < 16" for j
    using assms that by simp
  have 0: "\<forall>j<4. buffer (off + j) = enc32 (ev_wd h) ! j"
    using b by (simp add: nth_append)
  have 1: "\<forall>j<4. buffer (off + 4 + j) = enc32 (ev_mask h) ! j"
  proof (intro allI impI)
    fix j :: nat assume "j < 4"
    then have "buffer (off + (4 + j)) = ?bs ! (4 + j)" using b by simp
    then show "buffer (off + 4 + j) = enc32 (ev_mask h) ! j"
      using \<open>j < 4\<close> by (simp add: nth_append add.assoc)
  qed
  have 2: "\<forall>j<4. buffer (off + 8 + j) = enc32 (ev_cookie h) ! j"
  proof (intro allI impI)
    fix j :: nat assume "j < 4"
    then have "buffer (off + (8 + j)) = ?bs ! (8 + j)" using b by simp
    then show "buffer (off + 8 + j) = enc32 (ev_cookie h) ! j"
      using \<open>j < 4\<close> by (simp add: nth_append add.assoc)
  qed
  have 3: "\<forall>j<4. buffer (off + 12 + j) = enc32 (ev_len h) ! j"
  proof (intro allI impI)
    fix j :: nat assume "j < 4"
    then have "buffer (off + (12 + j)) = ?bs ! (12 + j)" using b by simp
    then show "buffer (off + 12 + j) = enc32 (ev_len h) ! j"
      using \<open>j < 4\<close> by (simp add: nth_append add.assoc)
  qed
  show ?thesis
    by (simp add: event_at_def u32_at_enc32[OF 0] u32_at_enc32[OF 1] u32_at_enc32[OF 2]
          u32_at_enc32[OF 3])
qed

section \<open>The scan index\<close>

lemma sint_word_of_int_32:
  "- (2 ^ 31) \<le> x \<Longrightarrow> x < 2 ^ 31 \<Longrightarrow> sint (word_of_int x :: 32 word) = x"
  by (simp add: sint_sbintrunc' signed_take_bit_int_eq_self)

lemma advance_eq:
  assumes "0 \<le> i" "i + 16 + uint l < 2 ^ 31"
  shows "advance i l = i + 16 + uint l"
proof -
  have e: "(word_of_int i :: 32 word) + (word_of_int 16 + l) = word_of_int (i + 16 + uint l)"
    by simp
  have "advance i l = sint (word_of_int (i + 16 + uint l) :: 32 word)"
    by (simp only: advance_def EVENT_SIZE_def e)
  also have "\<dots> = i + 16 + uint l"
    using assms by (intro sint_word_of_int_32) simp_all
  finally show ?thesis .
qed

text \<open>Without the bound the index need not move: the sum wraps around.\<close>

lemma advance_wraps: "advance 0 0xFFFFFFF0 = 0"
  by (simp add: advance_def EVENT_SIZE_def)

lemma BUF_LEN_eq: "BUF_LEN = 32768"
  by (simp add: BUF_LEN_def EVENT_SIZE_def)

section \<open>Scanning a batch\<close>

lemma triggers_iff:
  "well_formed (h, name) \<Longrightarrow>
     triggers (h, name) = (ev_len h \<noteq> 0 \<and> ev_mask h AND WATCH_MASK \<noteq> 0)"
  by (auto simp: unat_eq_0)

lemma scan_events_batch:
  assumes "list_all well_formed evs"
    and "\<forall>j<length (batch_bytes evs). buffer (off + j) = batch_bytes evs ! j"
    and "len = int (off + length (batch_bytes evs))"
    and "len \<le> BUF_LEN"
  shows "scan_events env src drives buffer len (int off) s =
           Some (Inr (if list_ex triggers evs
                      then sync_to_all_drives env src drives
                             (emit (Stdout (''Change detected in '' @ src)) s)
                      else s))"
  using assms
proof (induction evs arbitrary: off)
  case Nil
  then show ?case
    by (subst scan_events.simps) (simp add: batch_bytes_def)
next
  case (Cons ev evs)
  obtain h name where ev: "ev = (h, name)" by (cases ev)
  have bb: "batch_bytes (ev # evs) = event_bytes (h, name) @ batch_bytes evs"
    by (simp add: batch_bytes_def ev)
  have wf: "length name = unat (ev_len h)" and wfs: "list_all well_formed evs"
    using Cons.prems(1) by (simp_all add: ev)
  have tr: "triggers (h, name) = (ev_len h \<noteq> 0 \<and> ev_mask h AND WATCH_MASK \<noteq> 0)"
    using wf by (intro triggers_iff) simp
  have hd: "event_at buffer off = h"
    using Cons.prems(2) unfolding bb by (rule event_at_event_bytes)
  have lenb: "length (batch_bytes (ev # evs)) = 16 + length name + length (batch_bytes evs)"
    unfolding bb by simp
  have len: "len = int off + 16 + int (length name) + int (length (batch_bytes evs))"
    using Cons.prems(3) lenb by simp
  have bound: "int off + 16 + int (length name) \<le> 32768"
    using Cons.prems(4) len by (simp add: BUF_LEN_eq)
  have lt: "int off < len" using len by simp
  have inb: "0 \<le> int off \<and> int off + EVENT_SIZE \<le> BUF_LEN"
    using bound by (simp add: BUF_LEN_eq EVENT_SIZE_def)
  show ?case
  proof (cases "triggers (h, name)")
    case True
    then have "ev_len h \<noteq> 0 \<and> ev_mask h AND WATCH_MASK \<noteq> 0"
      using tr by simp
    then have "scan_events env src drives buffer len (int off) s =
        Some (Inr (sync_to_all_drives env src drives (emit (Stdout (''Change detected in '' @ src)) s)))"
      using lt inb hd by (subst scan_events.simps) simp
    moreover have "list_ex triggers (ev # evs)"
      using True unfolding ev by auto
    ultimately show ?thesis
      by (simp only: if_True)
  next
    case False
    then have nq: "\<not> (ev_len h \<noteq> 0 \<and> ev_mask h AND WATCH_MASK \<noteq> 0)"
      using tr by blast
    have adv: "advance (int off) (ev_len h) = int (off + 16 + length name)"
      using advance_eq[of "int off" "ev_len h"] bound wf by simp
    have buf': "\<forall>j<length (batch_bytes evs).
                  buffer ((off + 16 + length name) + j) = batch_bytes evs ! j"
    proof (intro allI impI)
      fix j assume j: "j < length (batch_bytes evs)"
      then have "buffer (off + (16 + length name + j)) =
                   batch_bytes (ev # evs) ! (16 + length name + j)"
        using Cons.prems(2) lenb by simp
      also have "\<dots> = batch_bytes evs ! j"
        unfolding bb by (simp add: nth_append)
      finally show "buffer ((off + 16 + length name) + j) = batch_bytes evs ! j"
        by (simp add: add.assoc)
    qed
    have len': "len = int ((off + 16 + length name) + length (batch_bytes evs))"
      using len by simp
    have IH: "scan_events env src drives buffer len (int (off + 16 + length name)) s =
           Some (Inr (if list_ex triggers evs
                      then sync_to_all_drives env src drives
                             (emit (Stdout (''Change detected in '' @ src)) s)
                      else s))"
      by (rule Cons.IH[OF wfs buf' len' Cons.prems(4)])
    have step: "scan_events env src drives buffer len (int off) s
            = scan_events env src drives buffer len (advance (int off) (ev_len h)) s"
      using lt inb hd nq
      by (subst scan_events.simps) auto
    have ex: "list_ex triggers (ev # evs) = list_ex triggers evs"
      using False unfolding ev by auto
    show ?thesis
      unfolding step adv ex by (rule IH)
  qed
qed

lemma scan_read_batch:
  assumes "list_all well_formed evs" and "int (length (batch_bytes evs)) \<le> BUF_LEN"
  shows "scan_events env src drives (read_into (batch_bytes evs) buffer)
            (read_length (batch_bytes evs)) 0 s =
           Some (Inr (if list_ex triggers evs
                      then sync_to_all_drives env src drives
                             (emit (Stdout (''Change detected in '' @ src)) s)
                      else s))"
proof -
  have rl: "read_length (batch_bytes evs) = int (length (batch_bytes evs))"
    using assms(2) by (simp add: read_length_def)
  have buf: "\<forall>j<length (batch_bytes evs).
               read_into (batch_bytes evs) buffer (0 + j) = batch_bytes evs ! j"
    by (simp add: read_into_def rl)
  have len: "read_length (batch_bytes evs) = int (0 + length (batch_bytes evs))"
    by (simp add: rl)
  have le: "read_length (batch_bytes evs) \<le> BUF_LEN"
    using assms(2) rl by simp
  show ?thesis
    using scan_events_batch[OF assms(1) buf len le, of env src drives s] by simp
qed

text \<open>Whatever the buffer holds, a scan that ends has dispatched once or not at all.\<close>

lemma scan_events_shape:
  "scan_events env src drives buffer len i s = Some r \<Longrightarrow>
     r = Inl Out_of_bounds \<or> r = Inr s \<or>
     r = Inr (sync_to_all_drives env src drives (emit (Stdout (''Change detected in '' @ src)) s))"
proof (induction env src drives buffer len i s r
        rule: scan_events.raw_induct[rotated 1, consumes 1])
  case (1 scan_events' env src_dir dest_drives buffer len i s r)
  show ?case
  proof (cases "i < len \<and> 0 \<le> i \<and> i + EVENT_SIZE \<le> BUF_LEN
                 \<and> \<not> (ev_len (event_at buffer (nat i)) \<noteq> 0
                        \<and> ev_mask (event_at buffer (nat i)) AND WATCH_MASK \<noteq> 0)")
    case True
    then have "scan_events' env src_dir dest_drives buffer len
                 (advance i (ev_len (event_at buffer (nat i)))) s = Some r"
      using 1 by (auto simp: Let_def)
    then show ?thesis using 1 by blast
  next
    case False
    then show ?thesis using 1(2) by (auto simp: Let_def split: if_splits)
  qed
qed

section \<open>The watch loop and main\<close>

lemma watch_loop_trace:
  "watch_loop env src drives fd buffer rs s = Some (e, s') \<Longrightarrow>
     \<exists>rest. trace s' = trace s @ Read_call fd # rest"
proof (induction rs arbitrary: buffer s)
  case Nil
  then show ?case by auto
next
  case (Cons r rs)
  show ?case
  proof (cases r)
    case Read_error
    then show ?thesis using Cons.prems by auto
  next
    case (Read_data bytes)
    let ?b = "read_into bytes buffer"
    let ?s0 = "emit (Read_call fd) s"
    obtain res where res: "scan_events env src drives ?b (read_length bytes) 0 ?s0 = Some res"
      using Cons.prems Read_data
      by (cases "scan_events env src drives ?b (read_length bytes) 0 ?s0") auto
    show ?thesis
    proof (cases res)
      case (Inl f)
      then show ?thesis using Cons.prems Read_data res by auto
    next
      case (Inr s1)
      then have w: "watch_loop env src drives fd ?b rs s1 = Some (e, s')"
        using Cons.prems Read_data res by simp
      obtain rest where rest: "trace s' = trace s1 @ Read_call fd # rest"
        using Cons.IH[OF w] by blast
      have "\<exists>xs. trace s1 = trace ?s0 @ xs"
        using scan_events_shape[OF res] Inr by (auto simp: pass_eq)
      then obtain xs where "trace s1 = trace s @ Read_call fd # xs" by auto
      then show ?thesis using rest by simp
    qed
  qed
qed

lemma watch_loop_returns:
  "list_all deliverable ds \<Longrightarrow>
     \<exists>e s'. watch_loop env src drives fd buffer (map delivery ds) s = Some (e, s')"
proof (induction ds arbitrary: buffer s)
  case Nil
  show ?case by simp
next
  case (Cons d ds)
  show ?case
  proof (cases d)
    case None
    then show ?thesis by simp
  next
    case (Some evs)
    then have wf: "list_all well_formed evs" and sz: "int (length (batch_bytes evs)) \<le> BUF_LEN"
      using Cons.prems by simp_all
    have rest: "list_all deliverable ds"
      using Cons.prems by simp
    show ?thesis
      using Cons.IH[OF rest] by (simp add: Some scan_read_batch[OF wf sz] Let_def)
  qed
qed

lemma main_valid:
  assumes "2 \<le> length args" "0 \<le> inotify_init_result env" "0 \<le> inotify_add_watch_result env"
  shows "main env prog args =
     (case watch_loop env (hd args) (tl args) (inotify_init_result env) (stack_buffer env)
             (reads env)
             (sync_to_all_drives env (hd args) (tl args) (startup_state env (hd args))) of
        None \<Rightarrow> None
      | Some (Loop_break, s5) \<Rightarrow>
          Some (Exit 0, emit (Close_call (inotify_init_result env))
                          (emit (Inotify_rm_watch (inotify_init_result env)
                                   (inotify_add_watch_result env)) s5))
      | Some (Read_blocks, s5) \<Rightarrow> Some (Blocked, s5)
      | Some (Loop_fault f, s5) \<Rightarrow> Some (Crashed f, s5))"
  using assms by (simp add: main_def Let_def startup_state_def emit_def initial_state_def)

lemmas example_defs =
  example_env_def ssd1_mounted_def mtab_unavailable_def mount_def initial_state_def
  startup_state_def emit_def is_drive_mounted_def sync_directory_def sync_command_def
  WATCH_MASK_def IN_CREATE_def IN_DELETE_def IN_MODIFY_def IN_MOVED_FROM_def IN_MOVED_TO_def

section \<open>The dispatcher\<close>

text \<open>
  C1: in one pass of \<open>sync_to_all_drives\<close> the mirror commands handed to \<^verbatim>\<open>system\<close> are
  exactly those of the destinations that \<open>is_drive_mounted\<close> reports mounted when their
  turn comes, one command each, in the order of the list; every destination is queried
  once (the \<open>k\<close>-th destination at the \<open>k\<close>-th query of the pass); and which commands are
  issued does not depend on what any \<^verbatim>\<open>system\<close> call returns, so a failed mirror run
  does not keep a later destination from being attempted.
\<close>

theorem dispatch_mirrors_mounted_in_order:
  "systems (trace (sync_to_all_drives env src ds s))
     = systems (trace s) @ map (sync_command src) (mounted_at_query env (n_mtab s) ds)
   \<and> n_sys (sync_to_all_drives env src ds s)
       = n_sys s + length (mounted_at_query env (n_mtab s) ds)
   \<and> n_mtab (sync_to_all_drives env src ds s) = n_mtab s + length ds
   \<and> systems (trace (sync_to_all_drives (env\<lparr>system_at := f\<rparr>) src ds s))
       = systems (trace (sync_to_all_drives env src ds s))"
  by (simp add: pass_eq systems_pass_trace)

text \<open>
  C4, as the program behaves: the output of a pass is, destination by destination, the
  lines of the mount query (the echoed mount directories and the flag line, or the
  complaint about the mount table), followed for a destination reported mounted by the
  \<^verbatim>\<open>system\<close> call and exactly one outcome line, and by nothing for a destination that
  is not mounted.
\<close>

theorem pass_output_per_destination:
  "trace (sync_to_all_drives env src ds s)
     = trace s @ pass_trace env src (n_mtab s) (n_sys s) ds"
  by (simp add: pass_eq)

text \<open>
  C4 as stated fails: for the destination \<^verbatim>\<open>/mnt/ssd2\<close>, which is not mounted, the pass
  prints the two mount directories it read and the flag \<^verbatim>\<open>0\<close>; no line says that
  \<^verbatim>\<open>/mnt/ssd2\<close> was skipped.
\<close>

theorem unmounted_destination_output:
  "trace (sync_to_all_drives (example_env ssd1_mounted []) ''/data'' [''/mnt/ssd2''] initial_state)
     = [Stdout ''/'', Stdout ''/mnt/ssd1'', Stdout ''0'']"
  by (simp add: example_defs)

section \<open>The mirror invocation\<close>

text \<open>
  C5, as the program behaves by design: for a source and a destination path that are not
  empty and consist of plain characters, \<open>sync_directory\<close> calls \<^verbatim>\<open>system\<close> once, with a
  command line that the shell runs as \<^verbatim>\<open>rsync\<close> with the arguments \<^verbatim>\<open>-avz\<close>,
  \<^verbatim>\<open>--delete\<close>, the source and the destination, each path arriving as one argument
  and unchanged; the line printed afterwards is chosen by whether the value that
  \<^verbatim>\<open>system\<close> returns for that command is zero, and by nothing else. Nothing is said
  about paths with other characters.
\<close>

theorem mirror_invocation:
  assumes "src \<noteq> []" and "dest \<noteq> []"
    and "list_all plain_char src" and "list_all plain_char dest"
  shows "sh_words (sync_command src dest) = Some [''rsync'', ''-avz'', ''--delete'', src, dest]
       \<and> sync_directory env src dest s =
           s\<lparr>n_sys := n_sys s + 1,
             trace := trace s @
               [System (sync_command src dest),
                if system_at env (n_sys s) (sync_command src dest) \<noteq> 0
                then Stderr (''Error syncing '' @ src @ '' to '' @ dest)
                else Stdout (''Successfully synced '' @ src @ '' to '' @ dest)]\<rparr>"
  by (simp add: sync_directory_eq outcome_line_def sh_words_sync_command[OF assms])

theorem mirror_invocation_witness:
  "''/data'' \<noteq> [] \<and> ''/mnt/ssd1'' \<noteq> []
   \<and> list_all plain_char ''/data'' \<and> list_all plain_char ''/mnt/ssd1''
   \<and> sh_words (sync_command ''/data'' ''/mnt/ssd1'')
       = Some [''rsync'', ''-avz'', ''--delete'', ''/data'', ''/mnt/ssd1'']
   \<and> sync_directory (example_env ssd1_mounted []) ''/data'' ''/mnt/ssd1'' initial_state
       = \<lparr>n_mtab = 0, n_sys = 1,
          trace = [System ''rsync -avz --delete /data /mnt/ssd1'',
                   Stdout ''Successfully synced /data to /mnt/ssd1'']\<rparr>"
  using mirror_invocation [of "''/data''" "''/mnt/ssd1''" "example_env ssd1_mounted []" initial_state]
  by (simp add: example_env_def initial_state_def sync_command_def plain_char_def)

text \<open>
  C5 as stated fails: the tool is never run with the two paths as its only arguments.
  For the source \<^verbatim>\<open>/srv/photos\<close> and the destination \<^verbatim>\<open>/mnt/backup\<close> it receives four
  arguments, the options \<^verbatim>\<open>-avz\<close> and \<^verbatim>\<open>--delete\<close> coming first.
\<close>

theorem mirror_arguments_include_options:
  "sh_words (sync_command ''/srv/photos'' ''/mnt/backup'')
     = Some [''rsync'', ''-avz'', ''--delete'', ''/srv/photos'', ''/mnt/backup'']
   \<and> sh_words (sync_command ''/srv/photos'' ''/mnt/backup'')
     \<noteq> Some [''rsync'', ''/srv/photos'', ''/mnt/backup'']"
  by (simp add: sh_words_def sync_command_def plain_char_def sh_reserved_def)

section \<open>The mount registry\<close>

text \<open>
  C6: when the mount table cannot be opened, \<open>is_drive_mounted\<close> answers \<open>False\<close> and
  writes one line to standard error; the pass makes no \<^verbatim>\<open>system\<close> call for that
  destination and goes on with the remaining destinations.
\<close>

theorem mount_table_unavailable:
  assumes "mtab_at env (n_mtab s) = None"
  shows "is_drive_mounted env d s =
           (False, s\<lparr>n_mtab := n_mtab s + 1,
                     trace := trace s @ [Stderr ''Error opening /etc/mtab'']\<rparr>)
       \<and> sync_to_all_drives env src (d # ds) s =
           sync_to_all_drives env src ds
             (s\<lparr>n_mtab := n_mtab s + 1,
                trace := trace s @ [Stderr ''Error opening /etc/mtab'']\<rparr>)"
  using assms
  by (simp add: is_drive_mounted_eq reported_mounted_iff mount_query_lines_def)

theorem mount_table_unavailable_witness:
  "mtab_at (example_env mtab_unavailable []) (n_mtab initial_state) = None
   \<and> is_drive_mounted (example_env mtab_unavailable []) ''/mnt/ssd1'' initial_state =
       (False, \<lparr>n_mtab = 1, n_sys = 0, trace = [Stderr ''Error opening /etc/mtab'']\<rparr>)
   \<and> sync_to_all_drives (example_env mtab_unavailable []) ''/data'' [''/mnt/ssd1'', ''/mnt/ssd2'']
         initial_state =
       \<lparr>n_mtab = 2, n_sys = 0,
        trace = [Stderr ''Error opening /etc/mtab'', Stderr ''Error opening /etc/mtab'']\<rparr>"
  using mount_table_unavailable [of "example_env mtab_unavailable []" initial_state
          "''/mnt/ssd1''" "''/data''" "[''/mnt/ssd2'']"]
  by (simp add: example_defs)

text \<open>
  C7: when the mount table can be read, \<open>is_drive_mounted\<close> answers \<open>True\<close> exactly when
  some entry has a \<^verbatim>\<open>mnt_dir\<close> equal, character by character, to the path asked for.
\<close>

theorem is_drive_mounted_exact:
  assumes "mtab_at env (n_mtab s) = Some entries"
  shows "fst (is_drive_mounted env path s) = (\<exists>e \<in> set entries. mnt_dir e = path)"
  using assms by (auto simp add: is_drive_mounted_eq reported_mounted_iff)

theorem is_drive_mounted_exact_witness:
  "mtab_at (example_env ssd1_mounted []) (n_mtab initial_state)
       = Some [mount ''/'', mount ''/mnt/ssd1'']
   \<and> fst (is_drive_mounted (example_env ssd1_mounted []) ''/mnt/ssd1'' initial_state)
   \<and> (\<exists>e \<in> set [mount ''/'', mount ''/mnt/ssd1'']. mnt_dir e = ''/mnt/ssd1'')
   \<and> \<not> fst (is_drive_mounted (example_env ssd1_mounted []) ''/mnt/ssd1/'' initial_state)"
  using is_drive_mounted_exact [of "example_env ssd1_mounted []" initial_state
          "[mount ''/'', mount ''/mnt/ssd1'']" "''/mnt/ssd1''"]
        is_drive_mounted_exact [of "example_env ssd1_mounted []" initial_state
          "[mount ''/'', mount ''/mnt/ssd1'']" "''/mnt/ssd1/''"]
  by (simp add: example_env_def ssd1_mounted_def mount_def initial_state_def)

section \<open>The controller\<close>

text \<open>
  C8: with fewer than two arguments after the program name, \<open>main\<close> writes the usage
  line to standard error and returns 1; it has made no mount query and no \<^verbatim>\<open>system\<close>
  call.
\<close>

theorem too_few_arguments:
  assumes "length args < 2"
  shows "main env prog args =
           Some (Exit 1, \<lparr>n_mtab = 0, n_sys = 0, trace = [Stderr (usage_line prog)]\<rparr>)"
  using assms by (simp add: main_def emit_def initial_state_def)

theorem too_few_arguments_witness:
  "length [''/data''] < 2
   \<and> main (example_env ssd1_mounted []) ''sync_to_ssds'' [''/data''] =
       Some (Exit 1,
         \<lparr>n_mtab = 0, n_sys = 0,
          trace = [Stderr
            ''Usage: sync_to_ssds <source_directory> <destination_drive1> [destination_drive2] ...'']\<rparr>)"
  using too_few_arguments [of "[''/data'']" "example_env ssd1_mounted []" "''sync_to_ssds''"]
  by (simp add: usage_line_def)

text \<open>
  C9: when the arguments are valid and the watch is set up, everything \<open>main\<close> does
  before its first \<^verbatim>\<open>read\<close> is the setup followed by one full pass of
  \<open>sync_to_all_drives\<close>: the trace of any run that ends starts with the trace of that pass,
  which contains no \<^verbatim>\<open>read\<close>, and the first \<^verbatim>\<open>read\<close> comes right after it. When no
  notification ever arrives the pass has still been made, and the process stays blocked
  in that first \<^verbatim>\<open>read\<close>. A run does end (by the \<^verbatim>\<open>break\<close>, or blocked in a
  \<^verbatim>\<open>read\<close>) whenever every \<^verbatim>\<open>read\<close> fails or delivers a batch of well-formed events.
\<close>

theorem startup_dispatch_first:
  assumes "2 \<le> length args" "0 \<le> inotify_init_result env" "0 \<le> inotify_add_watch_result env"
  shows "(main env prog args = Some (st, s) \<longrightarrow>
            (\<exists>rest. trace s =
               trace (sync_to_all_drives env (hd args) (tl args) (startup_state env (hd args)))
                 @ Read_call (inotify_init_result env) # rest))
       \<and> list_all (\<lambda>e. \<not> is_read_call e)
            (trace (sync_to_all_drives env (hd args) (tl args) (startup_state env (hd args))))
       \<and> (reads env = [] \<longrightarrow>
            main env prog args =
              Some (Blocked, emit (Read_call (inotify_init_result env))
                      (sync_to_all_drives env (hd args) (tl args) (startup_state env (hd args)))))
       \<and> (reads env = map delivery ds \<and> list_all deliverable ds \<longrightarrow>
            (\<exists>st' s'. main env prog args = Some (st', s')))"
proof (intro conjI impI)
  let ?s0 = "sync_to_all_drives env (hd args) (tl args) (startup_state env (hd args))"
  show "list_all (\<lambda>e. \<not> is_read_call e) (trace ?s0)"
    by (simp add: pass_eq no_read_pass_trace) (simp add: startup_state_def)
  show "main env prog args = Some (Blocked, emit (Read_call (inotify_init_result env)) ?s0)"
    if "reads env = []"
    using that by (simp add: main_valid[OF assms])
  show "\<exists>rest. trace s = trace ?s0 @ Read_call (inotify_init_result env) # rest"
    if m: "main env prog args = Some (st, s)"
  proof -
    let ?w = "watch_loop env (hd args) (tl args) (inotify_init_result env) (stack_buffer env)
                (reads env) ?s0"
    obtain e s5 where w: "?w = Some (e, s5)"
      using m unfolding main_valid[OF assms] by (cases ?w) auto
    obtain rest where r: "trace s5 = trace ?s0 @ Read_call (inotify_init_result env) # rest"
      using watch_loop_trace[OF w] by blast
    show ?thesis
      using m r unfolding main_valid[OF assms] w by (cases e) auto
  qed
  show "\<exists>st' s'. main env prog args = Some (st', s')"
    if d: "reads env = map delivery ds \<and> list_all deliverable ds"
  proof -
    obtain e s5 where
      "watch_loop env (hd args) (tl args) (inotify_init_result env) (stack_buffer env)
         (map delivery ds) ?s0 = Some (e, s5)"
      using watch_loop_returns[of ds] d by blast
    then show ?thesis
      unfolding main_valid[OF assms] using d by (cases e) simp_all
  qed
qed

theorem startup_dispatch_first_witness:
  "2 \<le> length [''/data'', ''/mnt/ssd1'', ''/mnt/ssd2'']
   \<and> 0 \<le> inotify_init_result (example_env ssd1_mounted [])
   \<and> 0 \<le> inotify_add_watch_result (example_env ssd1_mounted [])
   \<and> reads (example_env ssd1_mounted []) = map delivery []
   \<and> list_all deliverable []
   \<and> main (example_env ssd1_mounted []) ''sync_to_ssds'' [''/data'', ''/mnt/ssd1'', ''/mnt/ssd2'']
       = Some (Blocked,
           \<lparr>n_mtab = 2, n_sys = 1,
            trace = [Inotify_init, Inotify_add_watch 3 ''/data'' 0x3C2,
                     Stdout ''Watching /data for changes...'',
                     Stdout ''/'', Stdout ''/mnt/ssd1'', Stdout ''1'',
                     System ''rsync -avz --delete /data /mnt/ssd1'',
                     Stdout ''Successfully synced /data to /mnt/ssd1'',
                     Stdout ''/'', Stdout ''/mnt/ssd1'', Stdout ''0'',
                     Read_call 3]\<rparr>)
   \<and> trace (sync_to_all_drives (example_env ssd1_mounted []) ''/data'' [''/mnt/ssd1'', ''/mnt/ssd2'']
              (startup_state (example_env ssd1_mounted []) ''/data''))
       = [Inotify_init, Inotify_add_watch 3 ''/data'' 0x3C2,
          Stdout ''Watching /data for changes...'',
          Stdout ''/'', Stdout ''/mnt/ssd1'', Stdout ''1'',
          System ''rsync -avz --delete /data /mnt/ssd1'',
          Stdout ''Successfully synced /data to /mnt/ssd1'',
          Stdout ''/'', Stdout ''/mnt/ssd1'', Stdout ''0'']"
  using startup_dispatch_first [of "[''/data'', ''/mnt/ssd1'', ''/mnt/ssd2'']"
          "example_env ssd1_mounted []" "''sync_to_ssds''" Blocked
          "emit (Read_call 3) (sync_to_all_drives (example_env ssd1_mounted []) ''/data''
             [''/mnt/ssd1'', ''/mnt/ssd2''] (startup_state (example_env ssd1_mounted []) ''/data''))"
          "[]"]
  by (simp add: example_defs)

text \<open>
  C3 fails on the program: when the first \<^verbatim>\<open>read\<close> fails, \<open>main\<close> writes its complaint
  to standard error, leaves the loop, removes the watch, closes the descriptor and
  returns 0, where the failures of \<^verbatim>\<open>inotify_init\<close> and \<^verbatim>\<open>inotify_add_watch\<close> return 1.
\<close>

theorem read_failure_exits_zero:
  "main (example_env ssd1_mounted [Read_error]) ''sync_to_ssds'' [''/data'', ''/mnt/ssd1''] =
     Some (Exit 0,
       \<lparr>n_mtab = 1, n_sys = 1,
        trace = [Inotify_init, Inotify_add_watch 3 ''/data'' 0x3C2,
                 Stdout ''Watching /data for changes...'',
                 Stdout ''/'', Stdout ''/mnt/ssd1'', Stdout ''1'',
                 System ''rsync -avz --delete /data /mnt/ssd1'',
                 Stdout ''Successfully synced /data to /mnt/ssd1'',
                 Read_call 3, Stderr ''Error reading inotify events'',
                 Inotify_rm_watch 3 1, Close_call 3]\<rparr>)"
  by (simp add: main_def Let_def example_defs)

section \<open>The change watcher\<close>

text \<open>
  C2: a delivered batch of well-formed events that fits the buffer makes the scan of
  lines 90 to 101 end, and its whole effect is one \<^verbatim>\<open>Change detected\<close> line followed
  by one pass of \<open>sync_to_all_drives\<close> when some event of the batch has a non-empty name
  and a watched bit, and no effect at all otherwise (so an event with an empty name
  triggers nothing); the watch loop then goes on to its next \<^verbatim>\<open>read\<close>.
\<close>

theorem batch_yields_one_dispatch:
  assumes "list_all well_formed evs" and "int (length (batch_bytes evs)) \<le> BUF_LEN"
  shows "scan_events env src drives (read_into (batch_bytes evs) buffer)
            (read_length (batch_bytes evs)) 0 s =
           Some (Inr (if list_ex triggers evs
                      then sync_to_all_drives env src drives
                             (emit (Stdout (''Change detected in '' @ src)) s)
                      else s))
       \<and> watch_loop env src drives fd buffer (Read_data (batch_bytes evs) # rs) s =
           watch_loop env src drives fd (read_into (batch_bytes evs) buffer) rs
             (if list_ex triggers evs
              then sync_to_all_drives env src drives
                     (emit (Stdout (''Change detected in '' @ src)) (emit (Read_call fd) s))
              else emit (Read_call fd) s)"
  by (simp add: scan_read_batch[OF assms])

theorem batch_yields_one_dispatch_witness:
  "list_all well_formed create_delete_batch
   \<and> int (length (batch_bytes create_delete_batch)) \<le> BUF_LEN
   \<and> list_ex triggers create_delete_batch
   \<and> scan_events (example_env ssd1_mounted []) ''/data'' [''/mnt/ssd1'']
         (read_into (batch_bytes create_delete_batch) (\<lambda>j. 0))
         (read_length (batch_bytes create_delete_batch)) 0 initial_state =
       Some (Inr \<lparr>n_mtab = 1, n_sys = 1,
                  trace = [Stdout ''Change detected in /data'',
                           Stdout ''/'', Stdout ''/mnt/ssd1'', Stdout ''1'',
                           System ''rsync -avz --delete /data /mnt/ssd1'',
                           Stdout ''Successfully synced /data to /mnt/ssd1'']\<rparr>)
   \<and> list_all well_formed nameless_batch
   \<and> int (length (batch_bytes nameless_batch)) \<le> BUF_LEN
   \<and> \<not> list_ex triggers nameless_batch
   \<and> scan_events (example_env ssd1_mounted []) ''/data'' [''/mnt/ssd1'']
         (read_into (batch_bytes nameless_batch) (\<lambda>j. 0))
         (read_length (batch_bytes nameless_batch)) 0 initial_state =
       Some (Inr initial_state)"
  using batch_yields_one_dispatch [of create_delete_batch "example_env ssd1_mounted []"
          "''/data''" "[''/mnt/ssd1'']" "\<lambda>j. 0" initial_state]
        batch_yields_one_dispatch [of nameless_batch "example_env ssd1_mounted []"
          "''/data''" "[''/mnt/ssd1'']" "\<lambda>j. 0" initial_state]
  by (simp add: create_delete_batch_def nameless_batch_def name_a_def batch_bytes_def
        enc32_def BUF_LEN_def EVENT_SIZE_def example_defs)

text \<open>
  C10: on a delivered batch of well-formed events that fits the buffer the inner loop
  ends, without a fault; and at a well-formed event that lies inside the buffer the index
  moves on by the header size plus the length of the name, which is a strict increase.
\<close>

theorem batch_scan_terminates:
  assumes "list_all well_formed evs" and "int (length (batch_bytes evs)) \<le> BUF_LEN"
  shows "(\<exists>r. scan_events env src drives (read_into (batch_bytes evs) buffer)
                 (read_length (batch_bytes evs)) 0 s = Some (Inr r))
       \<and> (well_formed (h, name) \<and> int off + EVENT_SIZE + int (length name) \<le> BUF_LEN \<longrightarrow>
            advance (int off) (ev_len h) = int off + EVENT_SIZE + int (length name)
            \<and> int off < advance (int off) (ev_len h))"
proof (intro conjI impI)
  show "\<exists>r. scan_events env src drives (read_into (batch_bytes evs) buffer)
              (read_length (batch_bytes evs)) 0 s = Some (Inr r)"
    by (simp add: scan_read_batch[OF assms])
next
  assume a: "well_formed (h, name) \<and> int off + EVENT_SIZE + int (length name) \<le> BUF_LEN"
  then have "length name = unat (ev_len h)"
    by simp
  then have l: "int (length name) = uint (ev_len h)"
    by (simp only: uint_nat)
  have "int off + EVENT_SIZE + int (length name) \<le> BUF_LEN"
    using a by (rule conjunct2)
  then have "int off + 16 + uint (ev_len h) < 2 ^ 31"
    unfolding l by (simp add: BUF_LEN_eq EVENT_SIZE_def)
  then have e: "advance (int off) (ev_len h) = int off + 16 + uint (ev_len h)"
    by (intro advance_eq) simp_all
  show "advance (int off) (ev_len h) = int off + EVENT_SIZE + int (length name)"
    using e l by (simp add: EVENT_SIZE_def)
  have "0 \<le> uint (ev_len h)"
    by simp
  then show "int off < advance (int off) (ev_len h)"
    unfolding e by linarith
qed

theorem batch_scan_terminates_witness:
  "list_all well_formed create_delete_batch
   \<and> int (length (batch_bytes create_delete_batch)) \<le> BUF_LEN
   \<and> (\<exists>r. scan_events (example_env mtab_unavailable []) ''/data'' [''/mnt/ssd1'']
             (read_into (batch_bytes create_delete_batch) (\<lambda>j. 0))
             (read_length (batch_bytes create_delete_batch)) 0 initial_state = Some (Inr r))
   \<and> well_formed (\<lparr>ev_wd = 1, ev_mask = IN_CREATE, ev_cookie = 0, ev_len = 16\<rparr>, name_a)
   \<and> int 0 + EVENT_SIZE + int (length name_a) \<le> BUF_LEN
   \<and> advance (int 0) 16 = 32
   \<and> int 0 < advance (int 0) 16"
  using batch_scan_terminates [of create_delete_batch "example_env mtab_unavailable []"
          "''/data''" "[''/mnt/ssd1'']" "\<lambda>j. 0" initial_state
          "\<lparr>ev_wd = 1, ev_mask = IN_CREATE, ev_cookie = 0, ev_len = 16\<rparr>" name_a 0]
  by (simp add: create_delete_batch_def name_a_def batch_bytes_def enc32_def BUF_LEN_def
        EVENT_SIZE_def)

end
